theory Spec2Isabelle
  imports Complex_Main
begin

section \<open>JavaScript values used by the clipper\<close>

text \<open>
  JavaScript numbers that the component handles are media times in seconds. They are
  modelled as \<^typ>\<open>real\<close>; a state cell of TypeScript type \<^verbatim>\<open>number | null\<close> is a
  \<^typ>\<open>real option\<close> with \<^term>\<open>None\<close> for \<^verbatim>\<open>null\<close>, and an optional read such as
  \<^verbatim>\<open>videoRef.current?.currentTime\<close> is a \<^typ>\<open>real option\<close> with \<^term>\<open>None\<close> for
  \<^verbatim>\<open>undefined\<close>.
\<close>

text \<open>\<^verbatim>\<open>Math.round(x)\<close>: the nearest integer, a tie going towards plus infinity.\<close>

definition Math_round :: "real \<Rightarrow> real" where
  "Math_round x = of_int \<lfloor>x + 1 / 2\<rfloor>"

text \<open>\<^verbatim>\<open>x || 0\<close> on a number that may be \<^verbatim>\<open>null\<close> or \<^verbatim>\<open>undefined\<close>: every falsy value gives 0.\<close>

definition or_zero :: "real option \<Rightarrow> real" where
  "or_zero v = (case v of None \<Rightarrow> 0 | Some x \<Rightarrow> (if x = 0 then 0 else x))"

text \<open>
  Parsed JSON, as \<^verbatim>\<open>res.json()\<close> resolves to and as \<^verbatim>\<open>JSON.stringify\<close> is given; an
  object is the list of its properties in order, each key once.
\<close>

datatype json =
    JNull
  | JBool bool
  | JNum real
  | JStr string
  | JArr "json list"
  | JObj "(string \<times> json) list"

text \<open>A state cell of type \<^verbatim>\<open>number | null\<close> as a JSON field value.\<close>

definition json_of_time :: "real option \<Rightarrow> json" where
  "json_of_time v = (case v of None \<Rightarrow> JNull | Some x \<Rightarrow> JNum x)"

text \<open>
  The object pattern \<^verbatim>\<open>({ id }) => ...\<close> applied to the parsed body: destructuring
  \<^verbatim>\<open>null\<close> throws a TypeError (the outer \<^term>\<open>None\<close>); a missing property, and any
  property of a primitive or of an array, is \<^verbatim>\<open>undefined\<close> (the inner \<^term>\<open>None\<close>).
\<close>

fun destructure_id :: "json \<Rightarrow> json option option" where
  "destructure_id JNull = None"
| "destructure_id (JObj fields) = Some (map_of fields ''id'')"
| "destructure_id _ = Some None"

fun join_comma :: "string list \<Rightarrow> string" where
  "join_comma [] = []"
| "join_comma [x] = x"
| "join_comma (x # y # ys) = x @ '','' @ join_comma (y # ys)"

text \<open>
  The string a template literal \<^verbatim>\<open>`${v}`\<close> interpolates. How a number prints is the
  JavaScript engine's business and is taken as the parameter \<open>numstr\<close>.
\<close>

fun js_string :: "(real \<Rightarrow> string) \<Rightarrow> json \<Rightarrow> string" where
  "js_string numstr JNull = ''null''"
| "js_string numstr (JBool b) = (if b then ''true'' else ''false'')"
| "js_string numstr (JNum x) = numstr x"
| "js_string numstr (JStr s) = s"
| "js_string numstr (JArr vs) =
     join_comma (map (\<lambda>v. if v = JNull then [] else js_string numstr v) vs)"
| "js_string numstr (JObj fields) = ''[object Object]''"

definition template_string :: "(real \<Rightarrow> string) \<Rightarrow> json option \<Rightarrow> string" where
  "template_string numstr v =
     (case v of None \<Rightarrow> ''undefined'' | Some j \<Rightarrow> js_string numstr j)"

section \<open>lib/urlutils.ts\<close>

text \<open>
  \<^verbatim>\<open>const deliveryDomain = process.env.NEXT_PUBLIC_MUX_BYO_DOMAIN || "mux.com"\<close>: the
  environment variable is a string or undefined, and the empty string is falsy.
\<close>

definition deliveryDomain :: "string option \<Rightarrow> string" where
  "deliveryDomain env =
     (case env of None \<Rightarrow> ''mux.com'' | Some d \<Rightarrow> (if d = [] then ''mux.com'' else d))"

text \<open>
  Both functions are evaluated in a module where \<open>deliveryDomain\<close> has been computed
  from the environment; the environment is their only input.
\<close>

definition getStreamBaseUrl :: "string option \<Rightarrow> string" where
  "getStreamBaseUrl env = (let domain = deliveryDomain env in ''https://stream.staging.mux.com'')"

definition getImageBaseUrl :: "string option \<Rightarrow> string" where
  "getImageBaseUrl env = (let domain = deliveryDomain env in ''https://image.staging.mux.com'')"

section \<open>components/video-clipper.tsx\<close>

subsection \<open>What the component does to its surroundings\<close>

record request =
  url :: string
  http_method :: string
  body :: "(string \<times> json) list"
  headers :: "(string \<times> string) list"

record response =
  status :: nat
  json_body :: "json option"

text \<open>
  How the promise returned by \<^verbatim>\<open>fetch\<close> settles: it rejects on a network failure and
  resolves with a response otherwise, whatever the HTTP status. \<^term>\<open>json_body r = None\<close>
  is a body that is not JSON, on which \<^verbatim>\<open>res.json()\<close> rejects.
\<close>

datatype fetch_outcome = NetworkError | Responded response

datatype action =
    SetIsVertical bool
  | SetErrorMessage string
  | SetIsCreatingClip bool
  | SetStartTime "real option"
  | SetEndTime "real option"
  | SetDuration real
  | Seek real
  | Fetch request
  | RouterPush string
  | ConsoleError string
  | LoggerError string
  | ConsoleLog "real option" "real option"
  | OnLoaded
  | OnError
  | ImgSrc string
  | VideoSrc string
  | HlsLoadSource string
  | HlsDestroy
  | PromiseRejected

fun is_Fetch :: "action \<Rightarrow> bool" where
  "is_Fetch (Fetch r) = True"
| "is_Fetch _ = False"

fun is_Seek :: "action \<Rightarrow> bool" where
  "is_Seek (Seek x) = True"
| "is_Seek _ = False"

fun is_RouterPush :: "action \<Rightarrow> bool" where
  "is_RouterPush (RouterPush p) = True"
| "is_RouterPush _ = False"

text \<open>
  The component: its props, whether React still holds it (\<open>mounted\<close>), its state cells
  and refs, the video element behind \<^verbatim>\<open>videoRef\<close> (\<^term>\<open>None\<close> when the ref is null,
  otherwise the element's \<^verbatim>\<open>currentTime\<close>), whether the trimmer element is behind
  \<^verbatim>\<open>mediaRangeRef\<close>, the listeners it has attached, and the calls it has made so far, in
  order.
\<close>

record clipper =
  playbackId :: string
  poster :: string
  mounted :: bool
  video :: "real option"
  mediaRange :: bool
  isVertical :: "bool option"
  errorMessage :: string
  isCreatingClip :: bool
  startTime :: "real option"
  endTime :: "real option"
  prevStartTime :: "real option"
  prevEndTime :: "real option"
  duration :: "real option"
  errorListener :: bool
  loadedmetadataListener :: bool
  updatedListeners :: nat
  hls :: bool
  trace :: "action list"

definition emit :: "action \<Rightarrow> clipper \<Rightarrow> clipper" where
  "emit a s = s\<lparr>trace := trace s @ [a]\<rparr>"

text \<open>
  The setters of \<^verbatim>\<open>useState\<close>. React keeps the cells of a mounted component only: a
  setter called after the unmount is still a call, and changes no cell.
\<close>

definition setIsVertical :: "bool \<Rightarrow> clipper \<Rightarrow> clipper" where
  "setIsVertical v s = emit (SetIsVertical v) (if mounted s then s\<lparr>isVertical := Some v\<rparr> else s)"

definition setErrorMessage :: "string \<Rightarrow> clipper \<Rightarrow> clipper" where
  "setErrorMessage v s = emit (SetErrorMessage v) (if mounted s then s\<lparr>errorMessage := v\<rparr> else s)"

definition setIsCreatingClip :: "bool \<Rightarrow> clipper \<Rightarrow> clipper" where
  "setIsCreatingClip v s = emit (SetIsCreatingClip v) (if mounted s then s\<lparr>isCreatingClip := v\<rparr> else s)"

definition setStartTime :: "real option \<Rightarrow> clipper \<Rightarrow> clipper" where
  "setStartTime v s = emit (SetStartTime v) (if mounted s then s\<lparr>startTime := v\<rparr> else s)"

definition setEndTime :: "real option \<Rightarrow> clipper \<Rightarrow> clipper" where
  "setEndTime v s = emit (SetEndTime v) (if mounted s then s\<lparr>endTime := v\<rparr> else s)"

definition setDuration :: "real \<Rightarrow> clipper \<Rightarrow> clipper" where
  "setDuration v s = emit (SetDuration v) (if mounted s then s\<lparr>duration := Some v\<rparr> else s)"

text \<open>
  \<^verbatim>\<open>if (videoRef.current) { videoRef.current.currentTime = x; }\<close>: with an element, the
  assignment is a seek, after which the element reports \<open>x\<close>. (A browser keeps the
  position inside the media; that clamping is not part of the component.)
\<close>

definition seek :: "real \<Rightarrow> clipper \<Rightarrow> clipper" where
  "seek x s = (case video s of None \<Rightarrow> s | Some p \<Rightarrow> emit (Seek x) (s\<lparr>video := Some x\<rparr>))"

subsection \<open>The effects\<close>

text \<open>The effect with dependencies \<^verbatim>\<open>[startTime, endTime]\<close>.\<close>

definition markerEffect :: "clipper \<Rightarrow> clipper" where
  "markerEffect s =
     (let s1 = (if startTime s \<noteq> prevStartTime s
                then (seek (or_zero (startTime s)) s)\<lparr>prevStartTime := startTime s\<rparr>
                else s);
          s2 = (if endTime s1 \<noteq> prevEndTime s1
                then (seek (or_zero (endTime s1)) s1)\<lparr>prevEndTime := endTime s1\<rparr>
                else s1)
      in emit (ConsoleLog (startTime s2) (endTime s2)) s2)"

text \<open>The effect with dependencies \<^verbatim>\<open>[duration, mediaRangeRef]\<close>: one more listener each time.\<close>

definition listenerEffect :: "clipper \<Rightarrow> clipper" where
  "listenerEffect s =
     (if mediaRange s then s\<lparr>updatedListeners := Suc (updatedListeners s)\<rparr> else s)"

text \<open>
  After an event handler has run, React renders a mounted component again and runs the
  effects whose dependencies differ from those of the previous render \<open>old\<close>, in the order
  of their declaration.
\<close>

definition rerender :: "clipper \<Rightarrow> clipper \<Rightarrow> clipper" where
  "rerender old s =
     (if mounted s
      then
        let s1 = (if [startTime s, endTime s] = [startTime old, endTime old]
                  then s else markerEffect s)
        in if duration s1 = duration old then s1 else listenerEffect s1
      else s)"

text \<open>The media URL of the effect with dependencies \<^verbatim>\<open>[playbackId, videoRef]\<close>.\<close>

definition clipper_src :: "string \<Rightarrow> string" where
  "clipper_src pid = ''https://stream.mux.com/'' @ pid @ ''.m3u8''"

subsection \<open>The poster-image probe\<close>

text \<open>\<^verbatim>\<open>onLoaded()\<close> and \<^verbatim>\<open>onError(event)\<close> are props: calls out of the component.\<close>

definition onLoaded :: "clipper \<Rightarrow> clipper" where
  "onLoaded s = emit OnLoaded s"

definition videoError :: "clipper \<Rightarrow> clipper" where
  "videoError s = emit OnError s"

text \<open>\<^verbatim>\<open>onImageLoad\<close>: the width and height of an image element are unsigned integers.\<close>

definition onImageLoad :: "nat \<Rightarrow> nat \<Rightarrow> clipper \<Rightarrow> clipper" where
  "onImageLoad w h s =
     (if w \<noteq> 0 \<and> h \<noteq> 0
      then onLoaded (setIsVertical (real w / real h < 1) s)
      else emit (ConsoleError ''Error getting img dimensions'') (onLoaded s))"

text \<open>
  The probe image either loads, with its dimensions, or fails to load. The effect sets
  \<^verbatim>\<open>img.onload\<close> and nothing else, so an image that fails to load runs no code of the
  component.
\<close>

datatype image_event = ImgLoad nat nat | ImgError

definition imageProbe :: "image_event \<Rightarrow> clipper \<Rightarrow> clipper" where
  "imageProbe ev s =
     (case ev of ImgLoad w h \<Rightarrow> rerender s (onImageLoad w h s) | ImgError \<Rightarrow> s)"

subsection \<open>Mounting and unmounting\<close>

text \<open>What the browser can play: HLS natively, through hls.js, or not at all.\<close>

datatype backend = NativeHls | HlsJs | NoMse

definition imageEffect :: "clipper \<Rightarrow> clipper" where
  "imageEffect s = emit (ImgSrc (poster s)) s"

definition hlsEffect :: "backend \<Rightarrow> clipper \<Rightarrow> clipper" where
  "hlsEffect b s =
     (let src = clipper_src (playbackId s) in
      case video s of
        None \<Rightarrow> s
      | Some p \<Rightarrow>
          (let s1 = s\<lparr>errorListener := True, loadedmetadataListener := True\<rparr> in
           case b of
             NativeHls \<Rightarrow> emit (VideoSrc src) s1
           | HlsJs \<Rightarrow> emit (HlsLoadSource src) (s1\<lparr>hls := True\<rparr>)
           | NoMse \<Rightarrow>
               emit (ConsoleError ''This is an old browser that does not support MSE https://developer.mozilla.org/en-US/docs/Web/API/Media_Source_Extensions_API'') s1))"

text \<open>The cleanup of that effect: the only cleanup the component has.\<close>

definition hlsCleanup :: "clipper \<Rightarrow> clipper" where
  "hlsCleanup s =
     (let s1 = (case video s of None \<Rightarrow> s | Some p \<Rightarrow> s\<lparr>errorListener := False\<rparr>)
      in if hls s1 then emit HlsDestroy (s1\<lparr>hls := False\<rparr>) else s1)"

text \<open>
  The component before its first render: \<^verbatim>\<open>useState\<close> and \<^verbatim>\<open>useRef\<close> give every cell its
  initial value. The \<^verbatim>\<open>video\<close> and \<^verbatim>\<open>media-trimmer\<close> elements are always rendered, so
  both refs are set when the effects of the first render run.
\<close>

definition initial :: "string \<Rightarrow> string \<Rightarrow> clipper" where
  "initial pid img =
     \<lparr>playbackId = pid, poster = img, mounted = True, video = Some 0, mediaRange = True,
      isVertical = None, errorMessage = [], isCreatingClip = False,
      startTime = None, endTime = None, prevStartTime = None, prevEndTime = None,
      duration = None, errorListener = False, loadedmetadataListener = False,
      updatedListeners = 0, hls = False, trace = []\<rparr>"

text \<open>The first render runs every effect, in the order of declaration.\<close>

definition mount :: "backend \<Rightarrow> clipper \<Rightarrow> clipper" where
  "mount b s = listenerEffect (markerEffect (hlsEffect b (imageEffect s)))"

text \<open>
  Unmounting runs the cleanup, which works on the element it captured when the effect
  ran; React lets go of the cells and sets both refs back to null.
\<close>

definition unmount :: "clipper \<Rightarrow> clipper" where
  "unmount s = (hlsCleanup s)\<lparr>mounted := False, video := None, mediaRange := False\<rparr>"

text \<open>
  The element's \<^verbatim>\<open>error\<close> event, heard while the listener is attached, and an error
  event of hls.js, which matters when it is fatal.
\<close>

definition errorEvent :: "clipper \<Rightarrow> clipper" where
  "errorEvent s = (if errorListener s then videoError s else s)"

definition hlsErrorEvent :: "bool \<Rightarrow> clipper \<Rightarrow> clipper" where
  "hlsErrorEvent fatal s =
     (if hls s \<and> fatal then videoError (emit (LoggerError ''hls.js fatal error'') s) else s)"

text \<open>
  \<^verbatim>\<open>loadedMetadata\<close>, the listener of the element's \<^verbatim>\<open>loadedmetadata\<close> event; \<open>d\<close> is the
  element's \<^verbatim>\<open>duration\<close> at that moment.
\<close>

definition loadedMetadata :: "real \<Rightarrow> clipper \<Rightarrow> clipper" where
  "loadedMetadata d s =
     (if loadedmetadataListener s \<and> video s \<noteq> None \<and> d \<noteq> 0
      then rerender s (setDuration d s) else s)"

subsection \<open>The markers\<close>

text \<open>
  The two buttons:
  \<^verbatim>\<open>onClick={() => setStartTime(Math.round(videoRef.current?.currentTime || 0))}\<close> and its
  twin for the end.
\<close>

definition clickSetStart :: "clipper \<Rightarrow> clipper" where
  "clickSetStart s = rerender s (setStartTime (Some (Math_round (or_zero (video s)))) s)"

definition clickSetEnd :: "clipper \<Rightarrow> clipper" where
  "clickSetEnd s = rerender s (setEndTime (Some (Math_round (or_zero (video s)))) s)"

text \<open>
  The listener of the trimmer's \<^verbatim>\<open>updated\<close> event. The event runs every listener that
  has been attached; the state they set is rendered once they have all run, as a React
  that batches the setters of one event does. A React that renders after each setter runs
  the marker effect between the two calls as well: the calls then come in another order,
  and the cells, the refs and the element's position end the same.
\<close>

definition updatedListener :: "real option \<Rightarrow> real option \<Rightarrow> clipper \<Rightarrow> clipper" where
  "updatedListener a b s = setEndTime b (setStartTime a s)"

definition rangeUpdated :: "real option \<Rightarrow> real option \<Rightarrow> clipper \<Rightarrow> clipper" where
  "rangeUpdated a b s = rerender s ((updatedListener a b ^^ updatedListeners s) s)"

text \<open>Playback, or the user scrubbing, moves the element's position; no code of the component runs.\<close>

definition playhead :: "real \<Rightarrow> clipper \<Rightarrow> clipper" where
  "playhead p s = (case video s of None \<Rightarrow> s | Some q \<Rightarrow> s\<lparr>video := Some p\<rparr>)"

subsection \<open>Creating the clip\<close>

definition clipRequest :: "clipper \<Rightarrow> request" where
  "clipRequest s =
     \<lparr>url = ''/api/clips'', http_method = ''POST'',
      body = [(''playbackId'', JStr (playbackId s)),
              (''startTime'', json_of_time (startTime s)),
              (''endTime'', json_of_time (endTime s))],
      headers = [(''content-type'', ''application/json'')]\<rparr>"

text \<open>\<^verbatim>\<open>createClip\<close> up to its \<^verbatim>\<open>await\<close>: the request is on its way.\<close>

definition createClip_begin :: "clipper \<Rightarrow> clipper" where
  "createClip_begin s =
     rerender s (emit (Fetch (clipRequest s)) (setIsCreatingClip True (setErrorMessage [] s)))"

text \<open>The \<^verbatim>\<open>catch\<close> block; the handler's promise rejects, and nothing awaits it.\<close>

definition createClip_catch :: "clipper \<Rightarrow> clipper" where
  "createClip_catch s =
     emit PromiseRejected
       (setErrorMessage ''Error creating this clip''
         (setIsCreatingClip False
           (emit (ConsoleError ''Error in createUpload'') s)))"

text \<open>
  \<^verbatim>\<open>createClip\<close> from the moment the promise of \<^verbatim>\<open>fetch\<close> settles: the two \<^verbatim>\<open>then\<close>
  callbacks, or the \<^verbatim>\<open>catch\<close> block when the promise, \<^verbatim>\<open>res.json()\<close> or the
  destructuring of the body throws.
\<close>

definition createClip_settle :: "(real \<Rightarrow> string) \<Rightarrow> fetch_outcome \<Rightarrow> clipper \<Rightarrow> clipper" where
  "createClip_settle numstr out s =
     rerender s
       (case out of
          NetworkError \<Rightarrow> createClip_catch s
        | Responded res \<Rightarrow>
            (case json_body res of
               None \<Rightarrow> createClip_catch s
             | Some v \<Rightarrow>
                 (case destructure_id v of
                    None \<Rightarrow> createClip_catch s
                  | Some i \<Rightarrow>
                      emit (RouterPush (''/assets/'' @ template_string numstr i))
                        (setIsCreatingClip False s))))"

definition createClip :: "(real \<Rightarrow> string) \<Rightarrow> fetch_outcome \<Rightarrow> clipper \<Rightarrow> clipper" where
  "createClip numstr out s = createClip_settle numstr out (createClip_begin s)"

subsection \<open>Sequences of marker operations\<close>

text \<open>
  The user brings the playhead to a position and presses one of the two buttons.
\<close>

datatype mark = MarkStart real | MarkEnd real

fun mark_step :: "mark \<Rightarrow> clipper \<Rightarrow> clipper" where
  "mark_step (MarkStart p) s = clickSetStart (playhead p s)"
| "mark_step (MarkEnd p) s = clickSetEnd (playhead p s)"

fun run_marks :: "mark list \<Rightarrow> clipper \<Rightarrow> clipper" where
  "run_marks [] s = s"
| "run_marks (m # ms) s = run_marks ms (mark_step m s)"

text \<open>The position of the last press of each button in a sequence, if there is one.\<close>

fun last_start :: "mark list \<Rightarrow> real option" where
  "last_start [] = None"
| "last_start (MarkStart p # ms) = (case last_start ms of None \<Rightarrow> Some p | Some q \<Rightarrow> Some q)"
| "last_start (MarkEnd p # ms) = last_start ms"

fun last_end :: "mark list \<Rightarrow> real option" where
  "last_end [] = None"
| "last_end (MarkEnd p # ms) = (case last_end ms of None \<Rightarrow> Some p | Some q \<Rightarrow> Some q)"
| "last_end (MarkStart p # ms) = last_end ms"

text \<open>
  Between events the two refs hold the markers of the last render: the marker effect
  has brought them up to date.
\<close>

definition synced :: "clipper \<Rightarrow> bool" where
  "synced s \<longleftrightarrow> prevStartTime s = startTime s \<and> prevEndTime s = endTime s"

section \<open>Properties\<close>

subsection \<open>Values\<close>

lemmas cell_defs = emit_def setStartTime_def setEndTime_def setErrorMessage_def
  setIsCreatingClip_def setIsVertical_def setDuration_def

lemmas effect_defs = seek_def markerEffect_def listenerEffect_def rerender_def

lemma or_zero_Some [simp]: "or_zero (Some x) = x"
  by (simp add: or_zero_def)

lemma or_zero_None [simp]: "or_zero None = 0"
  by (simp add: or_zero_def)

lemma Math_round_of_int [simp]: "Math_round (of_int n) = of_int n"
  by (simp add: Math_round_def)

lemma Math_round_idem [simp]: "Math_round (Math_round x) = Math_round x"
  unfolding Math_round_def[of x] by (rule Math_round_of_int)

lemma Math_round_0 [simp]: "Math_round 0 = 0"
  using Math_round_of_int[of 0] by simp

subsection \<open>A mounted component to compute with\<close>

lemma example_mounted:
  "mount HlsJs (initial ''abc'' ''poster.png'') =
     \<lparr>playbackId = ''abc'', poster = ''poster.png'', mounted = True, video = Some 0,
      mediaRange = True, isVertical = None, errorMessage = [], isCreatingClip = False,
      startTime = None, endTime = None, prevStartTime = None, prevEndTime = None,
      duration = None, errorListener = True, loadedmetadataListener = True,
      updatedListeners = 1, hls = True,
      trace = [ImgSrc ''poster.png'', HlsLoadSource ''https://stream.mux.com/abc.m3u8'',
               ConsoleLog None None]\<rparr>"
  by (simp add: mount_def initial_def imageEffect_def hlsEffect_def clipper_src_def
        cell_defs effect_defs)

text \<open>What the first render leaves, whatever the browser can play.\<close>

lemma mount_ready:
  "mounted (mount b (initial pid img))" "updatedListeners (mount b (initial pid img)) = 1"
  "video (mount b (initial pid img)) = Some 0"
  by (cases b; simp add: mount_def initial_def imageEffect_def hlsEffect_def
        cell_defs effect_defs Let_def)+

lemma mount_loads_src:
  "trace (mount NativeHls (initial pid img)) =
     [ImgSrc img, VideoSrc (''https://stream.mux.com/'' @ pid @ ''.m3u8''), ConsoleLog None None]"
  "trace (mount HlsJs (initial pid img)) =
     [ImgSrc img, HlsLoadSource (''https://stream.mux.com/'' @ pid @ ''.m3u8''), ConsoleLog None None]"
  by (simp_all add: mount_def initial_def imageEffect_def hlsEffect_def clipper_src_def
        cell_defs effect_defs Let_def)

lemma example_playing:
  "playhead (16 / 5) (mount HlsJs (initial ''abc'' ''poster.png'')) =
     (mount HlsJs (initial ''abc'' ''poster.png''))\<lparr>video := Some (16 / 5)\<rparr>"
  by (simp add: example_mounted playhead_def)

lemma Math_round_example: "Math_round (16 / 5) = 3" "Math_round (17 / 5) = 3"
  by (simp_all add: Math_round_def)

lemma not_whole: "(16 / 5 :: real) \<notin> \<int>"
proof
  assume "(16 / 5 :: real) \<in> \<int>"
  then have "of_int \<lfloor>16 / 5 :: real\<rfloor> = (16 / 5 :: real)"
    by (rule of_int_floor)
  then show False by simp
qed

subsection \<open>The two buttons\<close>

text \<open>A press of Set start whose value is new, and one whose value is the marker already.\<close>

lemma clickSetStart_new:
  assumes "mounted s" and "synced s" and "startTime s \<noteq> Some (Math_round (or_zero (video s)))"
  shows "clickSetStart s =
           (let v = Math_round (or_zero (video s)) in
            s\<lparr>video := map_option (\<lambda>p. v) (video s), startTime := Some v,
              prevStartTime := Some v,
              trace := trace s @ SetStartTime (Some v) #
                (case video s of None \<Rightarrow> [] | Some p \<Rightarrow> [Seek v]) @
                [ConsoleLog (Some v) (endTime s)]\<rparr>)"
  using assms
  by (cases "video s") (simp_all add: clickSetStart_def synced_def cell_defs effect_defs Let_def)

lemma clickSetStart_same:
  assumes "startTime s = Some (Math_round (or_zero (video s)))"
  shows "clickSetStart s = emit (SetStartTime (startTime s)) s"
  using assms
  by (simp add: clickSetStart_def cell_defs effect_defs Let_def)

lemma clickSetEnd_new:
  assumes "mounted s" and "synced s" and "endTime s \<noteq> Some (Math_round (or_zero (video s)))"
  shows "clickSetEnd s =
           (let v = Math_round (or_zero (video s)) in
            s\<lparr>video := map_option (\<lambda>p. v) (video s), endTime := Some v,
              prevEndTime := Some v,
              trace := trace s @ SetEndTime (Some v) #
                (case video s of None \<Rightarrow> [] | Some p \<Rightarrow> [Seek v]) @
                [ConsoleLog (startTime s) (Some v)]\<rparr>)"
  using assms
  by (cases "video s") (simp_all add: clickSetEnd_def synced_def cell_defs effect_defs Let_def)

lemma clickSetEnd_same:
  assumes "endTime s = Some (Math_round (or_zero (video s)))"
  shows "clickSetEnd s = emit (SetEndTime (endTime s)) s"
  using assms
  by (simp add: clickSetEnd_def cell_defs effect_defs Let_def)

text \<open>What no effect changes.\<close>

lemma rerender_markers [simp]:
  "startTime (rerender old s) = startTime s" "endTime (rerender old s) = endTime s"
  "mounted (rerender old s) = mounted s"
  by (simp_all add: cell_defs effect_defs Let_def split: option.splits)

lemma rerender_video_None [simp]: "video (rerender old s) = None \<longleftrightarrow> video s = None"
  by (simp add: cell_defs effect_defs Let_def split: option.splits)

text \<open>A handler that leaves the markers and the duration alone is followed by no effect.\<close>

lemma rerender_unchanged:
  assumes "startTime s' = startTime s" and "endTime s' = endTime s" and "duration s' = duration s"
  shows "rerender s s' = s'"
  using assms by (simp add: rerender_def)

lemma clickSetStart_markers:
  assumes "mounted s"
  shows "startTime (clickSetStart s) = Some (Math_round (or_zero (video s)))"
    and "endTime (clickSetStart s) = endTime s"
    and "mounted (clickSetStart s)"
    and "video (clickSetStart s) = None \<longleftrightarrow> video s = None"
  using assms by (simp_all add: clickSetStart_def cell_defs)

lemma clickSetEnd_markers:
  assumes "mounted s"
  shows "endTime (clickSetEnd s) = Some (Math_round (or_zero (video s)))"
    and "startTime (clickSetEnd s) = startTime s"
    and "mounted (clickSetEnd s)"
    and "video (clickSetEnd s) = None \<longleftrightarrow> video s = None"
  using assms by (simp_all add: clickSetEnd_def cell_defs)

lemma playhead_fields [simp]:
  "startTime (playhead p s) = startTime s" "endTime (playhead p s) = endTime s"
  "mounted (playhead p s) = mounted s"
  by (simp_all add: playhead_def split: option.splits)

text \<open>The refs are up to date after the first render and after every press and move.\<close>

lemma synced_mount: "synced (mount b (initial pid img))"
  by (cases b)
     (simp_all add: synced_def mount_def initial_def imageEffect_def hlsEffect_def
        cell_defs effect_defs Let_def)

lemma synced_clickSetStart: "synced s \<Longrightarrow> synced (clickSetStart s)"
  by (cases "video s") (simp_all add: synced_def clickSetStart_def cell_defs effect_defs Let_def)

lemma synced_clickSetEnd: "synced s \<Longrightarrow> synced (clickSetEnd s)"
  by (cases "video s") (simp_all add: synced_def clickSetEnd_def cell_defs effect_defs Let_def)

lemma synced_playhead: "synced s \<Longrightarrow> synced (playhead p s)"
  by (simp add: synced_def playhead_def split: option.splits)

lemma playhead_video: "video s \<noteq> None \<Longrightarrow> video (playhead p s) = Some p"
  by (auto simp add: playhead_def)

text \<open>The calls of one press, in order.\<close>

lemma clickSetStart_calls:
  assumes "mounted s" and "synced s"
  shows "trace (clickSetStart s) = trace s @ SetStartTime (Some (Math_round (or_zero (video s)))) #
           (if startTime s = Some (Math_round (or_zero (video s))) then []
            else (case video s of None \<Rightarrow> [] | Some p \<Rightarrow> [Seek (Math_round (or_zero (video s)))]) @
                 [ConsoleLog (Some (Math_round (or_zero (video s)))) (endTime s)])"
    and "video (clickSetStart s) =
           (if startTime s = Some (Math_round (or_zero (video s))) then video s
            else map_option (\<lambda>p. Math_round (or_zero (video s))) (video s))"
proof -
  let ?v = "Math_round (or_zero (video s))"
  show "trace (clickSetStart s) = trace s @ SetStartTime (Some ?v) #
           (if startTime s = Some ?v then []
            else (case video s of None \<Rightarrow> [] | Some p \<Rightarrow> [Seek ?v]) @ [ConsoleLog (Some ?v) (endTime s)])"
  proof (cases "startTime s = Some ?v")
    case True
    then show ?thesis by (simp add: clickSetStart_same emit_def)
  next
    case False
    then show ?thesis by (simp add: clickSetStart_new[OF assms False] Let_def)
  qed
  show "video (clickSetStart s) =
           (if startTime s = Some ?v then video s else map_option (\<lambda>p. ?v) (video s))"
  proof (cases "startTime s = Some ?v")
    case True
    then show ?thesis by (simp add: clickSetStart_same emit_def)
  next
    case False
    then show ?thesis by (simp add: clickSetStart_new[OF assms False] Let_def)
  qed
qed

lemma clickSetEnd_calls:
  assumes "mounted s" and "synced s"
  shows "trace (clickSetEnd s) = trace s @ SetEndTime (Some (Math_round (or_zero (video s)))) #
           (if endTime s = Some (Math_round (or_zero (video s))) then []
            else (case video s of None \<Rightarrow> [] | Some p \<Rightarrow> [Seek (Math_round (or_zero (video s)))]) @
                 [ConsoleLog (startTime s) (Some (Math_round (or_zero (video s))))])"
    and "video (clickSetEnd s) =
           (if endTime s = Some (Math_round (or_zero (video s))) then video s
            else map_option (\<lambda>p. Math_round (or_zero (video s))) (video s))"
proof -
  let ?v = "Math_round (or_zero (video s))"
  show "trace (clickSetEnd s) = trace s @ SetEndTime (Some ?v) #
           (if endTime s = Some ?v then []
            else (case video s of None \<Rightarrow> [] | Some p \<Rightarrow> [Seek ?v]) @ [ConsoleLog (startTime s) (Some ?v)])"
  proof (cases "endTime s = Some ?v")
    case True
    then show ?thesis by (simp add: clickSetEnd_same emit_def)
  next
    case False
    then show ?thesis by (simp add: clickSetEnd_new[OF assms False] Let_def)
  qed
  show "video (clickSetEnd s) =
           (if endTime s = Some ?v then video s else map_option (\<lambda>p. ?v) (video s))"
  proof (cases "endTime s = Some ?v")
    case True
    then show ?thesis by (simp add: clickSetEnd_same emit_def)
  next
    case False
    then show ?thesis by (simp add: clickSetEnd_new[OF assms False] Let_def)
  qed
qed

text \<open>A second press right after the first reads the position the first one left.\<close>

lemma clickSetStart_again:
  assumes "mounted s" and "synced s"
  shows "startTime (clickSetStart s) = Some (Math_round (or_zero (video (clickSetStart s))))"
  using assms
  by (cases "video s") (simp_all add: clickSetStart_markers clickSetStart_calls)

lemma clickSetEnd_again:
  assumes "mounted s" and "synced s"
  shows "endTime (clickSetEnd s) = Some (Math_round (or_zero (video (clickSetEnd s))))"
  using assms
  by (cases "video s") (simp_all add: clickSetEnd_markers clickSetEnd_calls)

subsection \<open>The trimmer's event\<close>

text \<open>The listeners of one \<open>updated\<close> event, run one after the other.\<close>

lemma updatedListener_funpow:
  "(updatedListener a b ^^ Suc n) s =
     (if mounted s then s\<lparr>startTime := a, endTime := b\<rparr> else s)
       \<lparr>trace := trace s @ concat (replicate (Suc n) [SetStartTime a, SetEndTime b])\<rparr>"
proof (induction n arbitrary: s)
  case 0
  show ?case by (simp add: updatedListener_def cell_defs)
next
  case (Suc n)
  have "(updatedListener a b ^^ Suc (Suc n)) s = (updatedListener a b ^^ Suc n) (updatedListener a b s)"
    by (simp only: funpow_Suc_right o_apply)
  also have "\<dots> = (if mounted s then s\<lparr>startTime := a, endTime := b\<rparr> else s)
       \<lparr>trace := trace s @ concat (replicate (Suc (Suc n)) [SetStartTime a, SetEndTime b])\<rparr>"
    unfolding Suc.IH by (simp add: updatedListener_def cell_defs)
  finally show ?case .
qed

lemma rangeUpdated_markers:
  assumes "mounted s" and "0 < updatedListeners s"
  shows "startTime (rangeUpdated a b s) = a" and "endTime (rangeUpdated a b s) = b"
proof -
  from assms(2) obtain n where n: "updatedListeners s = Suc n"
    by (cases "updatedListeners s") auto
  show "startTime (rangeUpdated a b s) = a" and "endTime (rangeUpdated a b s) = b"
    using assms(1) by (simp_all add: rangeUpdated_def n updatedListener_funpow del: funpow.simps)
qed

text \<open>The refs stay up to date across the trimmer's event.\<close>

lemma synced_rerender:
  assumes "synced old" and "prevStartTime s = prevStartTime old"
    and "prevEndTime s = prevEndTime old"
    and "mounted s \<or> [startTime s, endTime s] = [startTime old, endTime old]"
  shows "synced (rerender old s)"
  using assms
  by (cases "video s") (auto simp add: synced_def rerender_def markerEffect_def seek_def
        listenerEffect_def emit_def Let_def)

lemma synced_rangeUpdated: "synced s \<Longrightarrow> synced (rangeUpdated a b s)"
proof (cases "updatedListeners s")
  case 0
  assume "synced s"
  then show ?thesis
    by (simp add: rangeUpdated_def 0 rerender_unchanged)
next
  case (Suc n)
  assume "synced s"
  then show ?thesis
    unfolding rangeUpdated_def Suc updatedListener_funpow
    by (intro synced_rerender) simp_all
qed

subsection \<open>Creating the clip\<close>

lemma createClip_begin_eq:
  "createClip_begin s =
     (if mounted s then s\<lparr>errorMessage := [], isCreatingClip := True\<rparr> else s)
       \<lparr>trace := trace s @ [SetErrorMessage [], SetIsCreatingClip True, Fetch (clipRequest s)]\<rparr>"
proof -
  let ?h = "emit (Fetch (clipRequest s)) (setIsCreatingClip True (setErrorMessage [] s))"
  have h: "?h = (if mounted s then s\<lparr>errorMessage := [], isCreatingClip := True\<rparr> else s)
       \<lparr>trace := trace s @ [SetErrorMessage [], SetIsCreatingClip True, Fetch (clipRequest s)]\<rparr>"
    by (simp add: cell_defs)
  have "rerender s ?h = ?h"
    by (rule rerender_unchanged) (simp_all add: h)
  then show ?thesis by (simp only: createClip_begin_def h)
qed

lemma createClip_catch_eq:
  "createClip_catch s =
     (if mounted s then s\<lparr>isCreatingClip := False, errorMessage := ''Error creating this clip''\<rparr> else s)
       \<lparr>trace := trace s @ [ConsoleError ''Error in createUpload'', SetIsCreatingClip False,
                            SetErrorMessage ''Error creating this clip'', PromiseRejected]\<rparr>"
  by (simp add: createClip_catch_def cell_defs)

lemma rerender_catch: "rerender s (createClip_catch s) = createClip_catch s"
  by (rule rerender_unchanged) (simp_all add: createClip_catch_eq)

lemma createClip_settle_failed:
  "createClip_settle numstr NetworkError s = createClip_catch s"
  "json_body res = None \<Longrightarrow> createClip_settle numstr (Responded res) s = createClip_catch s"
  "json_body res = Some v \<Longrightarrow> destructure_id v = None \<Longrightarrow>
     createClip_settle numstr (Responded res) s = createClip_catch s"
  by (simp_all add: createClip_settle_def rerender_catch)

lemma createClip_settle_parsed:
  assumes "json_body res = Some v" and "destructure_id v = Some i"
  shows "createClip_settle numstr (Responded res) s =
           (if mounted s then s\<lparr>isCreatingClip := False\<rparr> else s)
             \<lparr>trace := trace s @ [SetIsCreatingClip False,
                                  RouterPush (''/assets/'' @ template_string numstr i)]\<rparr>"
proof -
  let ?h = "emit (RouterPush (''/assets/'' @ template_string numstr i)) (setIsCreatingClip False s)"
  have h: "?h = (if mounted s then s\<lparr>isCreatingClip := False\<rparr> else s)
             \<lparr>trace := trace s @ [SetIsCreatingClip False,
                                  RouterPush (''/assets/'' @ template_string numstr i)]\<rparr>"
    by (simp add: cell_defs)
  have "rerender s ?h = ?h"
    by (rule rerender_unchanged) (simp_all add: cell_defs)
  then show ?thesis
    using assms h by (simp add: createClip_settle_def)
qed

text \<open>The continuation sends no request of its own, however the first one ends.\<close>

lemma createClip_settle_no_fetch:
  "filter is_Fetch (trace (createClip_settle numstr out s)) = filter is_Fetch (trace s)"
proof (cases out)
  case NetworkError
  then show ?thesis by (simp add: createClip_settle_failed createClip_catch_eq)
next
  case (Responded res)
  show ?thesis
  proof (cases "json_body res")
    case None
    then show ?thesis by (simp add: Responded createClip_settle_failed createClip_catch_eq)
  next
    case (Some v)
    show ?thesis
    proof (cases "destructure_id v")
      case None
      with Some show ?thesis by (simp add: Responded createClip_settle_failed createClip_catch_eq)
    next
      case (Some i)
      with \<open>json_body res = Some v\<close> show ?thesis
        by (simp add: Responded createClip_settle_parsed)
    qed
  qed
qed

text \<open>The refs stay up to date across a request.\<close>

lemma synced_createClip: "synced s \<Longrightarrow> synced (createClip numstr out s)"
  unfolding createClip_def
proof -
  assume "synced s"
  then have b: "synced (createClip_begin s)"
    by (simp add: createClip_begin_eq synced_def)
  have "synced (createClip_settle numstr out s')" if "synced s'" for s'
  proof (cases out)
    case NetworkError
    with that show ?thesis by (simp add: createClip_settle_failed createClip_catch_eq synced_def)
  next
    case (Responded res)
    show ?thesis
    proof (cases "json_body res")
      case None
      with that show ?thesis
        by (simp add: Responded createClip_settle_failed createClip_catch_eq synced_def)
    next
      case (Some v)
      show ?thesis
      proof (cases "destructure_id v")
        case None
        with Some that show ?thesis
          by (simp add: Responded createClip_settle_failed createClip_catch_eq synced_def)
      next
        case (Some i)
        with \<open>json_body res = Some v\<close> that show ?thesis
          by (simp add: Responded createClip_settle_parsed synced_def)
      qed
    qed
  qed
  with b show "synced (createClip_settle numstr out (createClip_begin s))" by blast
qed

text \<open>A request that fails before any response, or whose response is not JSON.\<close>

lemma createClip_rejected:
  assumes "mounted s"
  shows "errorMessage (createClip numstr NetworkError s) = ''Error creating this clip''"
    and "\<not> isCreatingClip (createClip numstr NetworkError s)"
    and "trace (createClip numstr NetworkError s) =
           trace s @ [SetErrorMessage [], SetIsCreatingClip True, Fetch (clipRequest s),
                      ConsoleError ''Error in createUpload'', SetIsCreatingClip False,
                      SetErrorMessage ''Error creating this clip'', PromiseRejected]"
  using assms
  by (simp_all add: createClip_def createClip_settle_failed createClip_catch_eq createClip_begin_eq)

lemma createClip_unparsable:
  assumes "mounted s"
  shows "errorMessage (createClip numstr (Responded \<lparr>status = st, json_body = None\<rparr>) s) =
           ''Error creating this clip''"
    and "filter is_RouterPush
           (trace (createClip numstr (Responded \<lparr>status = st, json_body = None\<rparr>) s)) =
         filter is_RouterPush (trace s)"
  using assms
  by (simp_all add: createClip_def createClip_settle_failed createClip_catch_eq createClip_begin_eq)

subsection \<open>Unmounting\<close>

lemma unmount_fields [simp]:
  "mounted (unmount s) = False" "startTime (unmount s) = startTime s"
  "endTime (unmount s) = endTime s"
  by (simp_all add: unmount_def hlsCleanup_def emit_def split: option.splits)

subsection \<open>The probe\<close>

text \<open>An image that loads with both dimensions sets the layout and reports the player loaded.\<close>

lemma imageProbe_sized:
  assumes "mounted s" and "0 < w" and "0 < h"
  shows "imageProbe (ImgLoad w h) s =
           s\<lparr>isVertical := Some (w < h), trace := trace s @ [SetIsVertical (w < h), OnLoaded]\<rparr>"
proof -
  have "rerender s (onImageLoad w h s) = onImageLoad w h s"
    by (rule rerender_unchanged) (simp_all add: onImageLoad_def onLoaded_def cell_defs)
  then show ?thesis
    using assms by (simp add: imageProbe_def) (simp add: onImageLoad_def onLoaded_def cell_defs)
qed

subsection \<open>The claims\<close>

text \<open>
  C1: whatever playback id and markers the state holds, and however the request ends,
  \<^verbatim>\<open>createClip\<close> sends exactly one request: a POST to \<^verbatim>\<open>/api/clips\<close> whose body has
  exactly the three fields \<^verbatim>\<open>playbackId\<close>, \<^verbatim>\<open>startTime\<close> and \<^verbatim>\<open>endTime\<close>, holding the
  playback id and the two markers of the state (a marker not yet set goes as \<^verbatim>\<open>null\<close>).
  When the response is a success whose body is \<^verbatim>\<open>{id: i}\<close>, the component then navigates
  to \<^verbatim>\<open>/assets/i\<close>. With the playback id \<^verbatim>\<open>"abc"\<close>, the markers 5 and 12 and the response
  \<^verbatim>\<open>{id: "xyz"}\<close>, the one request carries \<^verbatim>\<open>"abc"\<close>, 5 and 12, and the navigation goes to
  \<^verbatim>\<open>/assets/xyz\<close>.
\<close>

theorem createClip_single_request_then_navigates:
  "filter is_Fetch (trace (createClip numstr out s)) =
     filter is_Fetch (trace s) @
     [Fetch \<lparr>url = ''/api/clips'', http_method = ''POST'',
             body = [(''playbackId'', JStr (playbackId s)),
                     (''startTime'', case startTime s of None \<Rightarrow> JNull | Some x \<Rightarrow> JNum x),
                     (''endTime'', case endTime s of None \<Rightarrow> JNull | Some x \<Rightarrow> JNum x)],
             headers = [(''content-type'', ''application/json'')]\<rparr>]
   \<and> trace (createClip numstr
        (Responded \<lparr>status = 200, json_body = Some (JObj [(''id'', JStr i)])\<rparr>) s) =
       trace s @
       [SetErrorMessage [], SetIsCreatingClip True,
        Fetch \<lparr>url = ''/api/clips'', http_method = ''POST'',
               body = [(''playbackId'', JStr (playbackId s)),
                       (''startTime'', case startTime s of None \<Rightarrow> JNull | Some x \<Rightarrow> JNum x),
                       (''endTime'', case endTime s of None \<Rightarrow> JNull | Some x \<Rightarrow> JNum x)],
               headers = [(''content-type'', ''application/json'')]\<rparr>,
        SetIsCreatingClip False, RouterPush (''/assets/'' @ i)]
   \<and> trace (createClip numstr
        (Responded \<lparr>status = 200, json_body = Some (JObj [(''id'', JStr ''xyz'')])\<rparr>)
        (s\<lparr>playbackId := ''abc'', startTime := Some 5, endTime := Some 12\<rparr>)) =
       trace s @
       [SetErrorMessage [], SetIsCreatingClip True,
        Fetch \<lparr>url = ''/api/clips'', http_method = ''POST'',
               body = [(''playbackId'', JStr ''abc''), (''startTime'', JNum 5),
                       (''endTime'', JNum 12)],
               headers = [(''content-type'', ''application/json'')]\<rparr>,
        SetIsCreatingClip False, RouterPush ''/assets/xyz'']"
proof -
  have req: "clipRequest s' =
      \<lparr>url = ''/api/clips'', http_method = ''POST'',
       body = [(''playbackId'', JStr (playbackId s')),
               (''startTime'', case startTime s' of None \<Rightarrow> JNull | Some x \<Rightarrow> JNum x),
               (''endTime'', case endTime s' of None \<Rightarrow> JNull | Some x \<Rightarrow> JNum x)],
       headers = [(''content-type'', ''application/json'')]\<rparr>" for s'
    by (simp add: clipRequest_def json_of_time_def)
  have one: "filter is_Fetch (trace (createClip numstr out s)) =
          filter is_Fetch (trace s) @ [Fetch (clipRequest s)]"
    by (simp add: createClip_def createClip_settle_no_fetch createClip_begin_eq)
  have nav: "trace (createClip numstr
        (Responded \<lparr>status = 200, json_body = Some (JObj [(''id'', JStr j)])\<rparr>) s') =
       trace s' @ [SetErrorMessage [], SetIsCreatingClip True, Fetch (clipRequest s'),
                  SetIsCreatingClip False, RouterPush (''/assets/'' @ j)]" for j s'
    by (simp add: createClip_def createClip_begin_eq template_string_def
          createClip_settle_parsed[where v = "JObj [(''id'', JStr j)]" and i = "Some (JStr j)"])
  have inst: "trace (createClip numstr
        (Responded \<lparr>status = 200, json_body = Some (JObj [(''id'', JStr ''xyz'')])\<rparr>)
        (s\<lparr>playbackId := ''abc'', startTime := Some 5, endTime := Some 12\<rparr>)) =
       trace s @
       [SetErrorMessage [], SetIsCreatingClip True,
        Fetch \<lparr>url = ''/api/clips'', http_method = ''POST'',
               body = [(''playbackId'', JStr ''abc''), (''startTime'', JNum 5),
                       (''endTime'', JNum 12)],
               headers = [(''content-type'', ''application/json'')]\<rparr>,
        SetIsCreatingClip False, RouterPush ''/assets/xyz'']"
    unfolding nav req by simp
  from one nav[of i s] inst show ?thesis
    unfolding req by blast
qed

text \<open>
  C2, at a response that is a failure by its status: the creation endpoint answers 500
  with the JSON body \<^verbatim>\<open>{"error": "boom"}\<close>. The promise of \<^verbatim>\<open>fetch\<close> resolves, the body
  parses, and \<^verbatim>\<open>createClip\<close> takes the success path: it navigates to
  \<^verbatim>\<open>/assets/undefined\<close> and shows no error message.
\<close>

theorem createClip_http_failure_navigates:
  "trace (createClip numstr
      (Responded \<lparr>status = 500, json_body = Some (JObj [(''error'', JStr ''boom'')])\<rparr>) s) =
     trace s @ [SetErrorMessage [], SetIsCreatingClip True, Fetch (clipRequest s),
                SetIsCreatingClip False, RouterPush ''/assets/undefined'']
   \<and> errorMessage (createClip numstr
      (Responded \<lparr>status = 500, json_body = Some (JObj [(''error'', JStr ''boom'')])\<rparr>)
      (mount HlsJs (initial ''abc'' ''poster.png''))) = []"
proof -
  have p: "createClip_settle numstr
      (Responded \<lparr>status = 500, json_body = Some (JObj [(''error'', JStr ''boom'')])\<rparr>) s' =
      (if mounted s' then s'\<lparr>isCreatingClip := False\<rparr> else s')
        \<lparr>trace := trace s' @ [SetIsCreatingClip False, RouterPush ''/assets/undefined'']\<rparr>" for s'
    using createClip_settle_parsed[where v = "JObj [(''error'', JStr ''boom'')]" and i = None
        and res = "\<lparr>status = 500, json_body = Some (JObj [(''error'', JStr ''boom'')])\<rparr>"
        and s = s' and numstr = numstr]
    by (simp add: template_string_def)
  show ?thesis
    by (simp add: createClip_def p createClip_begin_eq example_mounted)
qed

text \<open>
  C3 as stated fails: with the playhead at 3.2 seconds, Set start stores 3, not 3.2; and
  a further press of Set start with the playhead at 3.4 stores 3 again and seeks nowhere.
\<close>

theorem setStart_stores_rounded_position:
  "startTime (clickSetStart (playhead (16 / 5) (mount HlsJs (initial ''abc'' ''poster.png''))))
     \<noteq> Some (16 / 5)
   \<and> filter is_Seek (trace (clickSetStart (playhead (17 / 5)
        (clickSetStart (playhead (16 / 5) (mount HlsJs (initial ''abc'' ''poster.png'')))))))
     = filter is_Seek (trace
        (clickSetStart (playhead (16 / 5) (mount HlsJs (initial ''abc'' ''poster.png'')))))"
proof -
  let ?s = "playhead (16 / 5) (mount HlsJs (initial ''abc'' ''poster.png''))"
  let ?t = "playhead (17 / 5) (clickSetStart ?s)"
  have m: "mounted ?s"
    by (simp add: example_mounted)
  have v: "video ?s = Some (16 / 5)"
    by (simp add: example_playing)
  have st: "startTime (clickSetStart ?s) = Some 3"
    by (simp add: clickSetStart_markers(1)[OF m] v Math_round_example)
  have "video (clickSetStart ?s) \<noteq> None"
    by (simp add: clickSetStart_markers(4)[OF m] v)
  then have "video ?t = Some (17 / 5)"
    by (rule playhead_video)
  then have "startTime ?t = Some (Math_round (or_zero (video ?t)))"
    by (simp add: st Math_round_example)
  then have "clickSetStart ?t = emit (SetStartTime (startTime ?t)) ?t"
    by (rule clickSetStart_same)
  then have "filter is_Seek (trace (clickSetStart ?t)) = filter is_Seek (trace ?t)"
    by (simp add: emit_def)
  moreover have "trace ?t = trace (clickSetStart ?s)"
    by (simp add: playhead_def split: option.splits)
  ultimately show ?thesis using st by simp
qed

text \<open>
  C3 as amended: in a mounted component, Set start stores the position rounded to the
  nearest whole second (0 when there is no element) as \<open>startTime\<close>; where that differs
  from the marker's value before, the element is then sought to the new \<open>startTime\<close>, and
  where it does not, nothing follows the setter's call. Set end does the same with
  \<open>endTime\<close>.
\<close>

theorem setStart_setEnd_round_then_seek:
  assumes "mounted s" and "synced s"
  shows "(let v = Math_round (or_zero (video s)) in
           startTime (clickSetStart s) = Some v
         \<and> trace (clickSetStart s) = trace s @ SetStartTime (Some v) #
             (if startTime s = Some v then []
              else (case video s of None \<Rightarrow> [] | Some p \<Rightarrow> [Seek v]) @
                   [ConsoleLog (Some v) (endTime s)])
         \<and> endTime (clickSetEnd s) = Some v
         \<and> trace (clickSetEnd s) = trace s @ SetEndTime (Some v) #
             (if endTime s = Some v then []
              else (case video s of None \<Rightarrow> [] | Some p \<Rightarrow> [Seek v]) @
                   [ConsoleLog (startTime s) (Some v)]))"
  unfolding Let_def
  using clickSetStart_markers(1)[OF assms(1)] clickSetEnd_markers(1)[OF assms(1)]
    clickSetStart_calls(1)[OF assms] clickSetEnd_calls(1)[OF assms]
  by blast

text \<open>C3 as amended, with the playhead at 3.2 seconds in a component just mounted.\<close>

theorem setStart_setEnd_round_then_seek_witness:
  "mounted (playhead (16 / 5) (mount HlsJs (initial ''abc'' ''poster.png'')))
   \<and> synced (playhead (16 / 5) (mount HlsJs (initial ''abc'' ''poster.png'')))
   \<and> startTime (clickSetStart (playhead (16 / 5) (mount HlsJs (initial ''abc'' ''poster.png'')))) =
       Some 3
   \<and> trace (clickSetStart (playhead (16 / 5) (mount HlsJs (initial ''abc'' ''poster.png'')))) =
       trace (mount HlsJs (initial ''abc'' ''poster.png'')) @
       [SetStartTime (Some 3), Seek 3, ConsoleLog (Some 3) None]
   \<and> endTime (clickSetEnd (playhead (16 / 5) (mount HlsJs (initial ''abc'' ''poster.png'')))) =
       Some 3"
proof -
  let ?s = "playhead (16 / 5) (mount HlsJs (initial ''abc'' ''poster.png''))"
  have m: "mounted ?s"
    by (simp add: example_mounted)
  have sy: "synced ?s"
    by (rule synced_playhead) (rule synced_mount)
  have f: "video ?s = Some (16 / 5)"
    "trace ?s = trace (mount HlsJs (initial ''abc'' ''poster.png''))"
    by (simp_all add: example_playing)
  have g: "startTime (mount HlsJs (initial ''abc'' ''poster.png'')) = None"
    "endTime (mount HlsJs (initial ''abc'' ''poster.png'')) = None"
    by (simp_all add: example_mounted)
  from setStart_setEnd_round_then_seek[OF m sy] m sy show ?thesis
    by (simp add: Let_def f g Math_round_example)
qed

text \<open>
  C4: an \<open>updated\<close> event of the trimmer carrying \<open>(a, b)\<close>, received by a mounted
  component that has attached its listener, leaves \<open>a\<close> in \<open>startTime\<close> and \<open>b\<close> in
  \<open>endTime\<close>, whatever the two markers held before and whatever \<open>a\<close> and \<open>b\<close> are.
\<close>

theorem rangeUpdated_overwrites_markers:
  assumes "mounted s" and "0 < updatedListeners s"
  shows "startTime (rangeUpdated a b s) = a \<and> endTime (rangeUpdated a b s) = b"
  using rangeUpdated_markers[OF assms] by simp

text \<open>
  C4 with the event of the claim, 3.2 and 9.7, in a component whose two markers both
  hold 7.
\<close>

theorem rangeUpdated_overwrites_markers_witness:
  "mounted (clickSetEnd (clickSetStart (playhead 7 (mount HlsJs (initial ''abc'' ''poster.png'')))))
   \<and> 0 < updatedListeners
       (clickSetEnd (clickSetStart (playhead 7 (mount HlsJs (initial ''abc'' ''poster.png'')))))
   \<and> startTime
       (clickSetEnd (clickSetStart (playhead 7 (mount HlsJs (initial ''abc'' ''poster.png''))))) =
       Some 7
   \<and> startTime (rangeUpdated (Some (16 / 5)) (Some (97 / 10))
        (clickSetEnd (clickSetStart (playhead 7 (mount HlsJs (initial ''abc'' ''poster.png'')))))) =
       Some (16 / 5)
   \<and> endTime (rangeUpdated (Some (16 / 5)) (Some (97 / 10))
        (clickSetEnd (clickSetStart (playhead 7 (mount HlsJs (initial ''abc'' ''poster.png'')))))) =
       Some (97 / 10)"
proof -
  let ?s = "clickSetEnd (clickSetStart (playhead 7 (mount HlsJs (initial ''abc'' ''poster.png''))))"
  have m: "mounted ?s" and l: "0 < updatedListeners ?s" and st: "startTime ?s = Some 7"
    using Math_round_of_int[of 7]
    by (simp_all add: example_mounted playhead_def clickSetStart_def clickSetEnd_def
          cell_defs effect_defs)
  from rangeUpdated_overwrites_markers[OF m l, of "Some (16 / 5)" "Some (97 / 10)"] m l st
  show ?thesis by simp
qed

text \<open>
  C5: after any sequence of presses of Set start and Set end, each at its own playhead
  position, \<open>startTime\<close> is the rounded position of the last press of Set start and
  \<open>endTime\<close> that of the last press of Set end (or what they were, without a press): no
  press looks at the other marker, so a start after the end is kept as it was set, neither
  swapped nor refused.
\<close>

theorem markers_never_reordered:
  assumes "mounted s" and "video s \<noteq> None"
  shows "startTime (run_marks ms s) =
           (case last_start ms of None \<Rightarrow> startTime s | Some p \<Rightarrow> Some (Math_round p))
       \<and> endTime (run_marks ms s) =
           (case last_end ms of None \<Rightarrow> endTime s | Some p \<Rightarrow> Some (Math_round p))"
  using assms
proof (induction ms arbitrary: s)
  case Nil
  show ?case by simp
next
  case (Cons m ms)
  from Cons.prems have ph: "mounted (playhead p s)" "video (playhead p s) = Some p" for p
    by (auto simp add: playhead_def)
  show ?case
  proof (cases m)
    case (MarkStart p)
    have "mounted (mark_step m s)" "video (mark_step m s) \<noteq> None"
      using ph[of p] by (simp_all add: MarkStart clickSetStart_markers)
    from Cons.IH[OF this] show ?thesis
      using ph[of p] by (simp add: MarkStart clickSetStart_markers split: option.splits)
  next
    case (MarkEnd p)
    have "mounted (mark_step m s)" "video (mark_step m s) \<noteq> None"
      using ph[of p] by (simp_all add: MarkEnd clickSetEnd_markers)
    from Cons.IH[OF this] show ?thesis
      using ph[of p] by (simp add: MarkEnd clickSetEnd_markers split: option.splits)
  qed
qed

text \<open>C5 with the end set at 3 seconds and then the start at 10: the range stays inverted.\<close>

theorem markers_never_reordered_witness:
  "mounted (mount HlsJs (initial ''abc'' ''poster.png''))
   \<and> video (mount HlsJs (initial ''abc'' ''poster.png'')) \<noteq> None
   \<and> startTime (run_marks [MarkEnd 3, MarkStart 10]
        (mount HlsJs (initial ''abc'' ''poster.png''))) = Some 10
   \<and> endTime (run_marks [MarkEnd 3, MarkStart 10]
        (mount HlsJs (initial ''abc'' ''poster.png''))) = Some 3"
proof -
  let ?s = "mount HlsJs (initial ''abc'' ''poster.png'')"
  have m: "mounted ?s" and v: "video ?s \<noteq> None"
    by (simp_all add: example_mounted)
  from markers_never_reordered[OF m v, of "[MarkEnd 3, MarkStart 10]"] m v show ?thesis
    using Math_round_of_int[of 3] Math_round_of_int[of 10] by simp
qed

text \<open>
  C6: in a mounted component between events, the calls of a press of Set start begin
  with the setter's call, which records the marker; every seek of that press comes later
  and goes to the recorded value; and a second press right after the first records the
  same value and seeks nowhere. The same holds for Set end.
\<close>

theorem seek_after_marker_recorded:
  assumes "mounted s" and "synced s"
  shows "(\<exists>v post. trace (clickSetStart s) = trace s @ SetStartTime (Some v) # post
            \<and> startTime (clickSetStart s) = Some v
            \<and> set (filter is_Seek post) \<subseteq> {Seek v}
            \<and> clickSetStart (clickSetStart s) = emit (SetStartTime (Some v)) (clickSetStart s))
       \<and> (\<exists>v post. trace (clickSetEnd s) = trace s @ SetEndTime (Some v) # post
            \<and> endTime (clickSetEnd s) = Some v
            \<and> set (filter is_Seek post) \<subseteq> {Seek v}
            \<and> clickSetEnd (clickSetEnd s) = emit (SetEndTime (Some v)) (clickSetEnd s))"
proof
  let ?v = "Math_round (or_zero (video s))"
  let ?post = "if startTime s = Some ?v then []
            else (case video s of None \<Rightarrow> [] | Some p \<Rightarrow> [Seek ?v]) @ [ConsoleLog (Some ?v) (endTime s)]"
  have st: "startTime (clickSetStart s) = Some ?v"
    by (rule clickSetStart_markers(1)[OF assms(1)])
  have "trace (clickSetStart s) = trace s @ SetStartTime (Some ?v) # ?post"
    by (rule clickSetStart_calls(1)[OF assms])
  moreover have "set (filter is_Seek ?post) \<subseteq> {Seek ?v}"
    by (auto split: option.splits)
  moreover have "clickSetStart (clickSetStart s) = emit (SetStartTime (Some ?v)) (clickSetStart s)"
    using clickSetStart_same[OF clickSetStart_again[OF assms]] st by simp
  ultimately show "\<exists>v post. trace (clickSetStart s) = trace s @ SetStartTime (Some v) # post
            \<and> startTime (clickSetStart s) = Some v
            \<and> set (filter is_Seek post) \<subseteq> {Seek v}
            \<and> clickSetStart (clickSetStart s) = emit (SetStartTime (Some v)) (clickSetStart s)"
    using st by blast
next
  let ?v = "Math_round (or_zero (video s))"
  let ?post = "if endTime s = Some ?v then []
            else (case video s of None \<Rightarrow> [] | Some p \<Rightarrow> [Seek ?v]) @ [ConsoleLog (startTime s) (Some ?v)]"
  have st: "endTime (clickSetEnd s) = Some ?v"
    by (rule clickSetEnd_markers(1)[OF assms(1)])
  have "trace (clickSetEnd s) = trace s @ SetEndTime (Some ?v) # ?post"
    by (rule clickSetEnd_calls(1)[OF assms])
  moreover have "set (filter is_Seek ?post) \<subseteq> {Seek ?v}"
    by (auto split: option.splits)
  moreover have "clickSetEnd (clickSetEnd s) = emit (SetEndTime (Some ?v)) (clickSetEnd s)"
    using clickSetEnd_same[OF clickSetEnd_again[OF assms]] st by simp
  ultimately show "\<exists>v post. trace (clickSetEnd s) = trace s @ SetEndTime (Some v) # post
            \<and> endTime (clickSetEnd s) = Some v
            \<and> set (filter is_Seek post) \<subseteq> {Seek v}
            \<and> clickSetEnd (clickSetEnd s) = emit (SetEndTime (Some v)) (clickSetEnd s)"
    using st by blast
qed

text \<open>C6 with the playhead at 3.2 seconds in a component just mounted.\<close>

theorem seek_after_marker_recorded_witness:
  "mounted (playhead (16 / 5) (mount HlsJs (initial ''abc'' ''poster.png'')))
   \<and> synced (playhead (16 / 5) (mount HlsJs (initial ''abc'' ''poster.png'')))
   \<and> (\<exists>post.
        trace (clickSetStart (playhead (16 / 5) (mount HlsJs (initial ''abc'' ''poster.png'')))) =
          trace (playhead (16 / 5) (mount HlsJs (initial ''abc'' ''poster.png''))) @
          SetStartTime (Some 3) # post
        \<and> set (filter is_Seek post) \<subseteq> {Seek 3})"
proof -
  let ?s = "playhead (16 / 5) (mount HlsJs (initial ''abc'' ''poster.png''))"
  have m: "mounted ?s"
    by (simp add: example_mounted)
  have sy: "synced ?s"
    by (rule synced_playhead) (rule synced_mount)
  have v: "video ?s = Some (16 / 5)"
    by (simp add: example_playing)
  have st: "startTime (clickSetStart ?s) = Some 3"
    by (simp add: clickSetStart_markers(1)[OF m] v Math_round_example)
  from seek_after_marker_recorded[OF m sy] obtain v post where
    "trace (clickSetStart ?s) = trace ?s @ SetStartTime (Some v) # post"
    "startTime (clickSetStart ?s) = Some v" "set (filter is_Seek post) \<subseteq> {Seek v}"
    by blast
  with st m sy show ?thesis by auto
qed

text \<open>
  C7 as stated fails: a component is mounted, Create clip is pressed, the component is
  unmounted, and then the success response \<^verbatim>\<open>{id: "xyz"}\<close> arrives. The continuation
  runs: after the unmount it calls \<^verbatim>\<open>setIsCreatingClip(false)\<close> and navigates to
  \<^verbatim>\<open>/assets/xyz\<close>.
\<close>

theorem unmount_pending_request_still_navigates:
  "drop (length (trace (unmount (createClip_begin (mount HlsJs (initial ''abc'' ''poster.png''))))))
     (trace (createClip_settle (\<lambda>x. [])
        (Responded \<lparr>status = 200, json_body = Some (JObj [(''id'', JStr ''xyz'')])\<rparr>)
        (unmount (createClip_begin (mount HlsJs (initial ''abc'' ''poster.png''))))))
   = [SetIsCreatingClip False, RouterPush ''/assets/xyz'']"
  by (simp add: template_string_def
        createClip_settle_parsed[where v = "JObj [(''id'', JStr ''xyz'')]" and i = "Some (JStr ''xyz'')"])

text \<open>
  C7 as amended: unmounting cancels no request. When the request settles after the
  unmount, the continuation runs as it does in a mounted component: on a response
  \<^verbatim>\<open>{id: i}\<close> it calls \<^verbatim>\<open>setIsCreatingClip(false)\<close> and navigates to \<^verbatim>\<open>/assets/i\<close>, and
  throws nothing; on a network failure it logs, calls both setters and rejects the
  handler's promise. Whatever the outcome, the calls change no state cell of the unmounted
  component.
\<close>

theorem unmount_keeps_continuation:
  "trace (createClip_settle numstr
       (Responded \<lparr>status = st, json_body = Some (JObj [(''id'', JStr i)])\<rparr>) (unmount s)) =
     trace (unmount s) @ [SetIsCreatingClip False, RouterPush (''/assets/'' @ i)]
   \<and> trace (createClip_settle numstr NetworkError (unmount s)) =
     trace (unmount s) @ [ConsoleError ''Error in createUpload'', SetIsCreatingClip False,
                          SetErrorMessage ''Error creating this clip'', PromiseRejected]
   \<and> createClip_settle numstr out (unmount s) =
     (unmount s)\<lparr>trace := trace (createClip_settle numstr out (unmount s))\<rparr>"
proof -
  have a: "trace (createClip_settle numstr
       (Responded \<lparr>status = st, json_body = Some (JObj [(''id'', JStr i)])\<rparr>) (unmount s)) =
     trace (unmount s) @ [SetIsCreatingClip False, RouterPush (''/assets/'' @ i)]"
    by (simp add: template_string_def
          createClip_settle_parsed[where v = "JObj [(''id'', JStr i)]" and i = "Some (JStr i)"])
  have b: "trace (createClip_settle numstr NetworkError (unmount s)) =
     trace (unmount s) @ [ConsoleError ''Error in createUpload'', SetIsCreatingClip False,
                          SetErrorMessage ''Error creating this clip'', PromiseRejected]"
    by (simp add: createClip_settle_failed createClip_catch_eq)
  have c: "createClip_settle numstr out (unmount s) =
     (unmount s)\<lparr>trace := trace (createClip_settle numstr out (unmount s))\<rparr>"
  proof (cases out)
    case NetworkError
    then show ?thesis by (simp add: createClip_settle_failed createClip_catch_eq)
  next
    case (Responded res)
    show ?thesis
    proof (cases "json_body res")
      case None
      then show ?thesis by (simp add: Responded createClip_settle_failed createClip_catch_eq)
    next
      case (Some v)
      show ?thesis
      proof (cases "destructure_id v")
        case None
        with Some show ?thesis by (simp add: Responded createClip_settle_failed createClip_catch_eq)
      next
        case (Some i)
        with \<open>json_body res = Some v\<close> show ?thesis
          by (simp add: Responded createClip_settle_parsed)
      qed
    qed
  qed
  from a b c show ?thesis by blast
qed

text \<open>
  C8, at a probe that fails because the poster image does not load: no code of the
  component runs, so nothing is logged and \<^verbatim>\<open>onLoaded\<close> is not called. A probe that fails
  because the loaded image has no width or no height does call \<^verbatim>\<open>onLoaded\<close> and logs.
\<close>

theorem image_error_runs_nothing:
  "imageProbe ImgError s = s
   \<and> trace (imageProbe (ImgLoad 0 h) s) =
       trace s @ [OnLoaded, ConsoleError ''Error getting img dimensions'']
   \<and> trace (imageProbe (ImgLoad w 0) s) =
       trace s @ [OnLoaded, ConsoleError ''Error getting img dimensions'']"
proof -
  have "rerender s (onImageLoad 0 h s) = onImageLoad 0 h s"
    by (rule rerender_unchanged) (simp_all add: onImageLoad_def onLoaded_def emit_def)
  moreover have "rerender s (onImageLoad w 0 s) = onImageLoad w 0 s"
    by (rule rerender_unchanged) (simp_all add: onImageLoad_def onLoaded_def emit_def)
  ultimately show ?thesis
    by (simp add: imageProbe_def) (simp add: onImageLoad_def onLoaded_def emit_def)
qed

text \<open>
  C9: the two base-URL functions return their fixed staging strings whatever the
  environment variable holds, and the clipper, when it mounts, loads its media from the
  different host \<^verbatim>\<open>https://stream.mux.com\<close>, natively or through hls.js.
\<close>

theorem base_urls_fixed:
  "getStreamBaseUrl env = ''https://stream.staging.mux.com''
   \<and> getImageBaseUrl env = ''https://image.staging.mux.com''
   \<and> clipper_src pid = ''https://stream.mux.com'' @ ''/'' @ pid @ ''.m3u8''
   \<and> trace (mount NativeHls (initial pid img)) =
       [ImgSrc img, VideoSrc (''https://stream.mux.com'' @ ''/'' @ pid @ ''.m3u8''),
        ConsoleLog None None]
   \<and> trace (mount HlsJs (initial pid img)) =
       [ImgSrc img, HlsLoadSource (''https://stream.mux.com'' @ ''/'' @ pid @ ''.m3u8''),
        ConsoleLog None None]
   \<and> ''https://stream.mux.com'' \<noteq> getStreamBaseUrl env"
  by (simp add: getStreamBaseUrl_def getImageBaseUrl_def clipper_src_def mount_loads_src)

text \<open>
  C10: in a mounted component whose element reports a position that is not negative,
  the value either button stores is a natural number, the rounding of that position; it
  is 0 when there is no element to ask. A value that arrives with the trimmer's event is
  stored as it is, fractional or not.
\<close>

theorem button_markers_whole_seconds:
  assumes "mounted s" and "0 \<le> or_zero (video s)" and "0 < updatedListeners s"
  shows "(\<exists>n::nat. startTime (clickSetStart s) = Some (real n)
              \<and> endTime (clickSetEnd s) = Some (real n)
              \<and> real n = Math_round (or_zero (video s)))
       \<and> startTime (clickSetStart (s\<lparr>video := None\<rparr>)) = Some 0
       \<and> endTime (clickSetEnd (s\<lparr>video := None\<rparr>)) = Some 0
       \<and> startTime (rangeUpdated (Some x) (Some y) s) = Some x
       \<and> endTime (rangeUpdated (Some x) (Some y) s) = Some y"
proof -
  from assms(2) have "0 \<le> \<lfloor>or_zero (video s) + 1 / 2\<rfloor>" by simp
  then obtain n :: nat where "\<lfloor>or_zero (video s) + 1 / 2\<rfloor> = int n"
    using zero_le_imp_eq_int by blast
  then have n: "Math_round (or_zero (video s)) = real n"
    by (simp add: Math_round_def)
  have "startTime (clickSetStart s) = Some (real n) \<and> endTime (clickSetEnd s) = Some (real n)
      \<and> real n = Math_round (or_zero (video s))"
    using n assms(1) by (simp add: clickSetStart_markers clickSetEnd_markers)
  then have whole: "\<exists>n::nat. startTime (clickSetStart s) = Some (real n)
              \<and> endTime (clickSetEnd s) = Some (real n)
              \<and> real n = Math_round (or_zero (video s))" ..
  have m: "mounted (s\<lparr>video := None\<rparr>)"
    using assms(1) by simp
  have none: "startTime (clickSetStart (s\<lparr>video := None\<rparr>)) = Some 0"
    "endTime (clickSetEnd (s\<lparr>video := None\<rparr>)) = Some 0"
    by (simp_all add: clickSetStart_markers(1)[OF m] clickSetEnd_markers(1)[OF m])
  from whole none rangeUpdated_markers[OF assms(1) assms(3)] show ?thesis by blast
qed

text \<open>
  C10 with the playhead at 3.2 seconds: the button stores 3, and the trimmer's event
  stores 3.2, which is no whole number.
\<close>

theorem button_markers_whole_seconds_witness:
  "mounted (playhead (16 / 5) (mount HlsJs (initial ''abc'' ''poster.png'')))
   \<and> 0 \<le> or_zero (video (playhead (16 / 5) (mount HlsJs (initial ''abc'' ''poster.png''))))
   \<and> 0 < updatedListeners (playhead (16 / 5) (mount HlsJs (initial ''abc'' ''poster.png'')))
   \<and> startTime (clickSetStart (playhead (16 / 5) (mount HlsJs (initial ''abc'' ''poster.png'')))) =
       Some 3
   \<and> startTime (rangeUpdated (Some (16 / 5)) (Some (97 / 10))
        (playhead (16 / 5) (mount HlsJs (initial ''abc'' ''poster.png'')))) = Some (16 / 5)
   \<and> (16 / 5 :: real) \<notin> \<int>"
proof -
  let ?s = "playhead (16 / 5) (mount HlsJs (initial ''abc'' ''poster.png''))"
  have m: "mounted ?s"
    by (simp add: example_mounted)
  have v: "video ?s = Some (16 / 5)"
    by (simp add: example_playing)
  have p: "0 \<le> or_zero (video ?s)"
    by (simp add: v)
  have l: "0 < updatedListeners ?s"
    by (simp add: example_playing) (simp add: example_mounted)
  from button_markers_whole_seconds[OF m p l, of "16 / 5" "97 / 10"] obtain n :: nat where
    "startTime (clickSetStart ?s) = Some (real n)" "real n = Math_round (or_zero (video ?s))"
    and r: "startTime (rangeUpdated (Some (16 / 5)) (Some (97 / 10)) ?s) = Some (16 / 5)"
    by blast
  then have "startTime (clickSetStart ?s) = Some 3"
    by (simp add: v Math_round_example)
  with m p l r not_whole show ?thesis by blast
qed

end
